theory Spec2Isabelle
  imports Main "HOL-Library.Word" "HOL-Library.Sublist"
begin

unbundle bit_operations_syntax

section \<open>JavaScript strings\<close>

text \<open>
  A JavaScript string is a sequence of 16-bit code units; \<open>str.length\<close> counts code
  units and \<open>str.charCodeAt(i)\<close> reads one. String literals of the source are written
  \<open>js ''...''\<close>.
\<close>

type_synonym jsstring = "16 word list"

definition js :: "string \<Rightarrow> jsstring" where
  "js s = map of_char s"

text \<open>\<open>str.charAt(i)\<close>: the empty string when \<open>i\<close> is out of range.\<close>

definition charAt :: "jsstring \<Rightarrow> int \<Rightarrow> jsstring" where
  "charAt s i = (if 0 \<le> i \<and> i < int (length s) then [s ! nat i] else [])"

text \<open>\<open>str.substr(start, length)\<close>: a negative start counts from the end, a
  length that is not positive gives the empty string.\<close>

definition substr :: "jsstring \<Rightarrow> int \<Rightarrow> int \<Rightarrow> jsstring" where
  "substr s start len =
     (let n = int (length s);
          st = (if start < 0 then max 0 (n + start) else min start n)
      in take (nat len) (drop (nat st) s))"

text \<open>The characters matched by \<open>\s\<close> in a regular expression, which are also the ones
  \<open>String.prototype.trim\<close> removes: white space and line terminators.\<close>

definition is_space :: "16 word \<Rightarrow> bool" where
  "is_space c \<longleftrightarrow>
     c = 0x09 \<or> c = 0x0A \<or> c = 0x0B \<or> c = 0x0C \<or> c = 0x0D \<or> c = 0x20 \<or> c = 0xA0 \<or>
     c = 0x1680 \<or> (0x2000 \<le> c \<and> c \<le> 0x200A) \<or> c = 0x2028 \<or> c = 0x2029 \<or>
     c = 0x202F \<or> c = 0x205F \<or> c = 0x3000 \<or> c = 0xFEFF"

text \<open>\<open>text.replace(/(<([^>]+)>)/ig, '')\<close>. At a \<open><\<close> the pattern matches when the
  next \<open>>\<close> exists and at least one character lies between the two; the match is
  deleted and the scan goes on behind it. Otherwise the character stays.\<close>

function strip_tags :: "jsstring \<Rightarrow> jsstring" where
  "strip_tags [] = []"
| "strip_tags (c # cs) =
     (if c = 0x3C \<and> takeWhile (\<lambda>x. x \<noteq> 0x3E) cs \<noteq> [] \<and> dropWhile (\<lambda>x. x \<noteq> 0x3E) cs \<noteq> []
      then strip_tags (tl (dropWhile (\<lambda>x. x \<noteq> 0x3E) cs))
      else c # strip_tags cs)"
  by pat_completeness auto
termination
proof (relation "measure length")
  show "wf (measure length)" by simp
next
  fix c :: "16 word" and cs :: jsstring
  have "length (tl (dropWhile (\<lambda>x. x \<noteq> 0x3E) cs)) \<le> length cs"
    using length_dropWhile_le [of "\<lambda>x. x \<noteq> 0x3E" cs] by simp
  then show "(tl (dropWhile (\<lambda>x. x \<noteq> 0x3E) cs), c # cs) \<in> measure length" by simp
next
  fix c :: "16 word" and cs :: jsstring
  show "(cs, c # cs) \<in> measure length" by simp
qed

text \<open>\<open>.replace(/\n/g, ' ')\<close> and \<open>.replace(/\r/g, ' ')\<close>.\<close>

definition replace_char :: "16 word \<Rightarrow> 16 word \<Rightarrow> jsstring \<Rightarrow> jsstring" where
  "replace_char a b s = map (\<lambda>c. if c = a then b else c) s"

text \<open>\<open>.replace(/\s+/g, ' ')\<close>: every maximal run of white space becomes one space.\<close>

function collapse_spaces :: "jsstring \<Rightarrow> jsstring" where
  "collapse_spaces [] = []"
| "collapse_spaces (c # cs) =
     (if is_space c then 0x20 # collapse_spaces (dropWhile is_space cs)
      else c # collapse_spaces cs)"
  by pat_completeness auto
termination
proof (relation "measure length")
  show "wf (measure length)" by simp
next
  fix c :: "16 word" and cs :: jsstring
  have "length (dropWhile is_space cs) \<le> length cs" by (rule length_dropWhile_le)
  then show "(dropWhile is_space cs, c # cs) \<in> measure length" by simp
next
  fix c :: "16 word" and cs :: jsstring
  show "(cs, c # cs) \<in> measure length" by simp
qed

text \<open>\<open>.trim()\<close>.\<close>

definition trim :: "jsstring \<Rightarrow> jsstring" where
  "trim s = rev (dropWhile is_space (rev (dropWhile is_space s)))"

section \<open>The document tree and the queries made on it\<close>

text \<open>
  \<open>cheerio.load(html)\<close> parses a page into a tree of text nodes, comments and elements
  (tag name, attributes, children). The parser is an external library: it is a parameter
  of the model (\<open>load\<close>, below), as is the entity decoder.
\<close>

datatype node =
    Text jsstring
  | Comment jsstring
  | Element string "(string \<times> jsstring) list" "node list"

text \<open>\<open>.text()\<close> of one node: the text nodes below it in document order; comments and
  the contents of \<open>script\<close> and \<open>style\<close> elements are left out.\<close>

fun text_of :: "node \<Rightarrow> jsstring" where
  "text_of (Text s) = s"
| "text_of (Comment s) = []"
| "text_of (Element t as cs) =
     (if t = ''script'' \<or> t = ''style'' then [] else concat (map text_of cs))"

text \<open>\<open>.text()\<close> of a selection: the texts of its members, one after the other.\<close>

definition text_sel :: "node list \<Rightarrow> jsstring" where
  "text_sel ns = concat (map text_of ns)"

text \<open>\<open>.attr(name)\<close>: the value of the first attribute of that name, if any.\<close>

fun attr :: "node \<Rightarrow> string \<Rightarrow> jsstring option" where
  "attr (Element t as cs) name = map_of as name"
| "attr _ name = None"

text \<open>The white-space separated tokens of an attribute value (for the class selector).\<close>

fun split_spaces :: "jsstring \<Rightarrow> jsstring \<Rightarrow> jsstring list" where
  "split_spaces cur [] = [cur]"
| "split_spaces cur (c # cs) =
     (if is_space c then cur # split_spaces [] cs else split_spaces (cur @ [c]) cs)"

text \<open>The selectors of the source: \<open>article.doc\<close>, \<open>h1\<close> and \<open>h2,h3,h4,h5,h6\<close>.\<close>

fun is_article_doc :: "node \<Rightarrow> bool" where
  "is_article_doc (Element t as cs) =
     (t = ''article'' \<and>
      (case map_of as ''class'' of None \<Rightarrow> False
       | Some v \<Rightarrow> js ''doc'' \<in> set (split_spaces [] v)))"
| "is_article_doc _ = False"

fun is_h1 :: "node \<Rightarrow> bool" where
  "is_h1 (Element t as cs) = (t = ''h1'')"
| "is_h1 _ = False"

fun is_subheading :: "node \<Rightarrow> bool" where
  "is_subheading (Element t as cs) =
     (t = ''h2'' \<or> t = ''h3'' \<or> t = ''h4'' \<or> t = ''h5'' \<or> t = ''h6'')"
| "is_subheading _ = False"

text \<open>\<open>$(selector)\<close>: every element of the forest that matches, in document order
  (an element before its descendants).\<close>

fun findAll :: "(node \<Rightarrow> bool) \<Rightarrow> node list \<Rightarrow> node list" where
  "findAll sel [] = []"
| "findAll sel (Text s # ns) = findAll sel ns"
| "findAll sel (Comment s # ns) = findAll sel ns"
| "findAll sel (Element t as cs # ns) =
     (if sel (Element t as cs) then [Element t as cs] else []) @ findAll sel cs @ findAll sel ns"

text \<open>\<open>$(selector, context)\<close>, where the context is the selection of the elements
  matching \<open>ctx\<close>: the elements matching \<open>sel\<close> that lie properly below a context
  element, each once, in document order. The search starts at the children of the outermost
  context elements.\<close>

fun find_within :: "(node \<Rightarrow> bool) \<Rightarrow> (node \<Rightarrow> bool) \<Rightarrow> node list \<Rightarrow> node list" where
  "find_within ctx sel [] = []"
| "find_within ctx sel (Text s # ns) = find_within ctx sel ns"
| "find_within ctx sel (Comment s # ns) = find_within ctx sel ns"
| "find_within ctx sel (Element t as cs # ns) =
     (if ctx (Element t as cs) then findAll sel cs else find_within ctx sel cs)
     @ find_within ctx sel ns"

text \<open>\<open>.remove()\<close> on such a selection takes every selected element, with all that is
  below it, out of the tree. \<open>remove_all\<close> deletes the elements matching \<open>sel\<close> of
  a forest, \<open>remove_within\<close> those that \<open>find_within\<close> selects.\<close>

fun remove_all :: "(node \<Rightarrow> bool) \<Rightarrow> node list \<Rightarrow> node list" where
  "remove_all sel [] = []"
| "remove_all sel (Text s # ns) = Text s # remove_all sel ns"
| "remove_all sel (Comment s # ns) = Comment s # remove_all sel ns"
| "remove_all sel (Element t as cs # ns) =
     (if sel (Element t as cs) then remove_all sel ns
      else Element t as (remove_all sel cs) # remove_all sel ns)"

fun remove_within :: "(node \<Rightarrow> bool) \<Rightarrow> (node \<Rightarrow> bool) \<Rightarrow> node list \<Rightarrow> node list" where
  "remove_within ctx sel [] = []"
| "remove_within ctx sel (Text s # ns) = Text s # remove_within ctx sel ns"
| "remove_within ctx sel (Comment s # ns) = Comment s # remove_within ctx sel ns"
| "remove_within ctx sel (Element t as cs # ns) =
     Element t as (if ctx (Element t as cs) then remove_all sel cs else remove_within ctx sel cs)
     # remove_within ctx sel ns"

section \<open>Pages, extracted documents and the index builder\<close>

text \<open>The playbook (\<open>playbook.site.url\<close> may be undefined) and a page of the input
  (\<open>page.contents\<close>, \<open>page.src.component\<close>, \<open>page.src.version\<close>,
  \<open>page.src.stem\<close>, \<open>page.pub.url\<close>).\<close>

record playbook =
  site_url :: "jsstring option"

record page =
  contents :: jsstring
  src_component :: jsstring
  src_version :: jsstring
  src_stem :: jsstring
  pub_url :: jsstring

text \<open>The external capabilities used on a page: the HTML parser behind
  \<open>cheerio.load\<close> and \<open>entities.decode\<close>.\<close>

record capabilities =
  load :: "jsstring \<Rightarrow> node list"
  decode :: "jsstring \<Rightarrow> jsstring"

text \<open>An entry of \<open>titles\<close>, \<open>{text, id}\<close>, and the object returned for a page.\<close>

record heading_ref =
  h_text :: jsstring
  h_id :: jsstring

record document =
  doc_text :: jsstring
  doc_title :: jsstring
  doc_component :: jsstring
  doc_version :: jsstring
  doc_name :: jsstring
  doc_url :: jsstring
  doc_titles :: "heading_ref list"

text \<open>The body of the \<open>each\<close> loop up to the removal: a heading whose \<open>id\<close>
  attribute is truthy (present and not empty) is pushed onto \<open>titles\<close>.\<close>

definition push_title :: "heading_ref list \<Rightarrow> node \<Rightarrow> heading_ref list" where
  "push_title titles t =
     (case attr t ''id'' of
        None \<Rightarrow> titles
      | Some i \<Rightarrow> if i = [] then titles else titles @ [\<lparr>h_text = text_of t, h_id = i\<rparr>])"

text \<open>
  The callback of \<open>pages.map\<close>. The tree is passed along explicitly: \<open>dom\<close> as
  loaded, \<open>dom1\<close> after \<open>$h1.remove()\<close>, \<open>dom2\<close> after the \<open>each\<close> loop. The
  selection \<open>article\<close> is the \<open>article.doc\<close> elements of the tree at hand (an
  \<open>article.doc\<close> element inside a heading of another one leaves the tree with that
  heading and is not followed further). In the
  loop a heading is read before it is removed, and removing it changes no heading that
  comes later in document order, so the loop reads all headings in \<open>dom1\<close> and
  \<open>dom2\<close> has all of them removed.
\<close>

definition extract_document :: "capabilities \<Rightarrow> jsstring \<Rightarrow> page \<Rightarrow> document" where
  "extract_document caps siteUrl p =
     (let html = contents p;
          dom = load caps html;
          h1 = find_within is_article_doc is_h1 dom;
          documentTitle = text_sel h1;
          dom1 = remove_within is_article_doc is_h1 dom;
          titles = foldl push_title [] (find_within is_article_doc is_subheading dom1);
          dom2 = remove_within is_article_doc is_subheading dom1;
          text0 = text_sel (findAll is_article_doc dom2);
          text1 = decode caps text0;
          text2 = trim (collapse_spaces (replace_char 0x0D 0x20 (replace_char 0x0A 0x20
                    (strip_tags text1))))
      in \<lparr>doc_text = text2, doc_title = documentTitle, doc_component = src_component p,
          doc_version = src_version p, doc_name = src_stem p, doc_url = siteUrl @ pub_url p,
          doc_titles = titles\<rparr>)"

text \<open>What the lunr builder is given: the reference field, the fields with their
  options, the metadata whitelist and the records added, in the order of the calls. The
  index that lunr builds is a function of this state, which stands for it here.\<close>

datatype index_record =
    PageRecord document
  | HeadingRecord jsstring jsstring

record builder =
  b_ref :: "string option"
  b_fields :: "(string \<times> nat option) list"
  metadataWhitelist :: "string list"
  b_docs :: "index_record list"

definition new_builder :: builder where
  "new_builder = \<lparr>b_ref = None, b_fields = [], metadataWhitelist = [], b_docs = []\<rparr>"

definition set_ref :: "string \<Rightarrow> builder \<Rightarrow> builder" where
  "set_ref r b = b\<lparr>b_ref := Some r\<rparr>"

definition field :: "string \<Rightarrow> nat option \<Rightarrow> builder \<Rightarrow> builder" where
  "field f boost b = b\<lparr>b_fields := b_fields b @ [(f, boost)]\<rparr>"

definition add :: "index_record \<Rightarrow> builder \<Rightarrow> builder" where
  "add r b = b\<lparr>b_docs := b_docs b @ [r]\<rparr>"

text \<open>The boost lunr gives a field: the option when there is one, 1 otherwise.\<close>

definition boost_of :: "nat option \<Rightarrow> nat" where
  "boost_of boost = (case boost of None \<Rightarrow> 1 | Some k \<Rightarrow> k)"

text \<open>\<open>lunr(config)\<close> runs the configuration function on a new builder.\<close>

definition lunr :: "(builder \<Rightarrow> builder) \<Rightarrow> builder" where
  "lunr config = config new_builder"

text \<open>The body of \<open>documents.forEach\<close> inside the configuration function.\<close>

definition add_document :: "builder \<Rightarrow> document \<Rightarrow> builder" where
  "add_document self doc =
     foldl (\<lambda>b title. add (HeadingRecord (h_text title) (doc_url doc @ js ''#'' @ h_id title)) b)
       (add (PageRecord doc) self) (doc_titles doc)"

text \<open>The result: \<open>{}\<close> or \<open>{index, store}\<close>.\<close>

datatype result =
    EmptyObject
  | IndexAndStore builder "jsstring \<rightharpoonup> document"

definition generateIndex :: "capabilities \<Rightarrow> playbook \<Rightarrow> page list \<Rightarrow> result" where
  "generateIndex caps pb pages =
     (let siteUrl = (case site_url pb of None \<Rightarrow> [] | Some u \<Rightarrow> if u = [] then [] else u);
          siteUrl = (if charAt siteUrl (int (length siteUrl) - 1) = js ''/''
                     then substr siteUrl 0 (int (length siteUrl) - 1) else siteUrl)
      in if pages = [] then EmptyObject
         else
           let documents = map (extract_document caps siteUrl) pages;
               lunrIndex = lunr (\<lambda>self.
                 let self = set_ref ''url'' self;
                     self = field ''title'' (Some 10) self;
                     self = field ''name'' None self;
                     self = field ''text'' None self;
                     self = field ''component'' None self;
                     self = self\<lparr>metadataWhitelist := [''position'']\<rparr>
                 in foldl add_document self documents);
               documentsStore = foldl (\<lambda>store doc. store(doc_url doc \<mapsto> doc)) Map.empty documents
           in IndexAndStore lunrIndex documentsStore)"

section \<open>Packaging\<close>

text \<open>\<open>str2buffer\<close>: the code units go into a \<open>Uint16Array\<close>, whose buffer is then
  read as bytes, the low byte of each unit first (the byte order of the platforms Node.js
  runs on).\<close>

definition str2buffer :: "jsstring \<Rightarrow> 8 word list" where
  "str2buffer str = concat (map (\<lambda>c. [ucast c, ucast (drop_bit 8 c)]) str)"

text \<open>\<open>compress\<close>, with \<open>JSON.stringify\<close> and \<open>pako.deflate\<close> as parameters.\<close>

definition compress :: "('a \<Rightarrow> jsstring) \<Rightarrow> (8 word list \<Rightarrow> 8 word list) \<Rightarrow> 'a \<Rightarrow> 8 word list" where
  "compress stringify deflate index = deflate (str2buffer (stringify index))"

text \<open>Modelled from the spec: the reading side, which is not part of this repository's
  source. It decodes bytes as 16-bit code units, low byte first; a last odd byte is
  dropped.\<close>

fun buffer2str :: "8 word list \<Rightarrow> jsstring" where
  "buffer2str (lo # hi # bs) = (push_bit 8 (ucast hi) OR ucast lo) # buffer2str bs"
| "buffer2str _ = []"

section \<open>Notions used to state the properties\<close>

text \<open>The site base URL with one trailing slash trimmed; empty when none is
  configured.\<close>

definition site_base :: "playbook \<Rightarrow> jsstring" where
  "site_base pb =
     (case site_url pb of None \<Rightarrow> []
      | Some u \<Rightarrow> if u \<noteq> [] \<and> last u = 0x2F then butlast u else u)"

text \<open>The records a document stands for: the full page record, then one sparse record
  per heading reference.\<close>

definition records_of :: "document \<Rightarrow> index_record list" where
  "records_of d =
     PageRecord d # map (\<lambda>t. HeadingRecord (h_text t) (doc_url d @ js ''#'' @ h_id t)) (doc_titles d)"

text \<open>The children of an element.\<close>

fun children :: "node \<Rightarrow> node list" where
  "children (Element t as cs) = cs"
| "children _ = []"



text \<open>The text of the article region that remains once the headings are removed.\<close>

definition remaining_article_text :: "node list \<Rightarrow> jsstring" where
  "remaining_article_text tree =
     text_sel (findAll is_article_doc
       (remove_within is_article_doc is_subheading (remove_within is_article_doc is_h1 tree)))"



section \<open>Example inputs\<close>

text \<open>A page with navigation outside the article, a title, a paragraph with a tab, a
  newline and a space, a sub-heading with an anchor id and one without; a parser that returns its tree and a decoder that leaves text
  without entities as it is.\<close>

definition example_tree :: "node list" where
  "example_tree =
     [Element ''nav'' [] [Text (js ''Menu'')],
      Element ''article'' [(''class'', js ''doc'')]
        [Element ''h1'' [] [Text (js ''Intro'')],
         Element ''p'' [] [Text (0x09 # js ''a'' @ [0x0A, 0x20] @ js ''b'')],
         Element ''h2'' [(''id'', js ''s1'')] [Text (js ''One'')],
         Element ''h3'' [] [Text (js ''Two'')],
         Element ''p'' [] [Text (js '' c '')]]]"

definition example_caps :: capabilities where
  "example_caps = \<lparr>load = (\<lambda>html. example_tree), decode = (\<lambda>s. s)\<rparr>"

definition example_page :: page where
  "example_page = \<lparr>contents = js ''<html>'', src_component = js ''c'', src_version = js ''1'',
     src_stem = js ''b'', pub_url = js ''/a/b.html''\<rparr>"



definition no_article_caps :: capabilities where
  "no_article_caps =
     \<lparr>load = (\<lambda>html. [Element ''div'' [(''class'', js ''body'')]
                         [Element ''h1'' [] [Text (js ''T'')], Text (js ''x'')]]),
      decode = (\<lambda>s. s)\<rparr>"

definition no_h1_caps :: capabilities where
  "no_h1_caps =
     \<lparr>load = (\<lambda>html. [Element ''article'' [(''class'', js ''doc'')]
                         [Element ''p'' [] [Text (js ''x'')]]]),
      decode = (\<lambda>s. s)\<rparr>"

definition example_playbook :: playbook where
  "example_playbook = \<lparr>site_url = Some (js ''https://ex.com/'')\<rparr>"

section \<open>Auxiliary facts about the assembly\<close>

lemma siteUrl_trim:
  "(if charAt s (int (length s) - 1) = js ''/'' then substr s 0 (int (length s) - 1) else s)
   = (if s \<noteq> [] \<and> last s = 0x2F then butlast s else s)"
proof (cases "s = []")
  case True then show ?thesis by (simp add: charAt_def js_def)
next
  case False
  then have "charAt s (int (length s) - 1) = [last s]"
    by (cases s rule: rev_cases) (auto simp: charAt_def nat_diff_distrib')
  moreover have "substr s 0 (int (length s) - 1) = butlast s"
    by (simp add: substr_def Let_def butlast_conv_take nat_diff_distrib')
  ultimately show ?thesis using False by (simp add: js_def)
qed

lemma foldl_add_heading:
  "foldl (\<lambda>b title. add (f title) b) b0 ts = b0\<lparr>b_docs := b_docs b0 @ map f ts\<rparr>"
  by (induction ts arbitrary: b0) (simp_all add: add_def)

lemma add_document_docs:
  "add_document b d = b\<lparr>b_docs := b_docs b @ records_of d\<rparr>"
  by (simp add: add_document_def records_of_def foldl_add_heading, simp add: add_def)

lemma foldl_add_document:
  "foldl add_document b ds = b\<lparr>b_docs := b_docs b @ concat (map records_of ds)\<rparr>"
  by (induction ds arbitrary: b) (simp_all add: add_document_docs)

lemma foldl_store:
  "foldl (\<lambda>store doc. store(doc_url doc \<mapsto> doc)) m ds = m ++ map_of (rev (map (\<lambda>d. (doc_url d, d)) ds))"
  by (induction ds arbitrary: m) (simp_all add: map_add_upd_left)

lemma generateIndex_nonempty:
  assumes "pages \<noteq> []"
  shows "generateIndex caps pb pages =
     IndexAndStore
       \<lparr>b_ref = Some ''url'',
        b_fields = [(''title'', Some 10), (''name'', None), (''text'', None), (''component'', None)],
        metadataWhitelist = [''position''],
        b_docs = concat (map records_of (map (extract_document caps (site_base pb)) pages))\<rparr>
       (map_of (rev (map (\<lambda>d. (doc_url d, d)) (map (extract_document caps (site_base pb)) pages))))"
proof -
  have s: "(let siteUrl = (case site_url pb of None \<Rightarrow> [] | Some u \<Rightarrow> if u = [] then [] else u)
       in (if charAt siteUrl (int (length siteUrl) - 1) = js ''/''
                     then substr siteUrl 0 (int (length siteUrl) - 1) else siteUrl)) = site_base pb"
    by (simp add: Let_def siteUrl_trim site_base_def split: option.splits)
  show ?thesis
    using assms s
    by (simp add: generateIndex_def Let_def lunr_def foldl_add_document foldl_store
        new_builder_def field_def set_ref_def)
qed


lemma doc_url_extract: "doc_url (extract_document caps s p) = s @ pub_url p"
  by (simp add: extract_document_def Let_def)

lemma page_records_of: "[d. PageRecord d \<leftarrow> concat (map records_of ds)] = ds"
  by (induction ds) (simp_all add: records_of_def)





lemma str2buffer_Cons: "str2buffer (c # cs) = ucast c # ucast (drop_bit 8 c) # str2buffer cs"
  by (simp add: str2buffer_def)

lemma str2buffer_length: "length (str2buffer s) = 2 * length s"
  by (induction s) (simp_all add: str2buffer_def)

lemma str2buffer_nth:
  "i < length s \<Longrightarrow>
   str2buffer s ! (2 * i) = ucast (s ! i) \<and> str2buffer s ! (2 * i + 1) = ucast (drop_bit 8 (s ! i))"
proof (induction s arbitrary: i)
  case Nil then show ?case by simp
next
  case (Cons c cs)
  show ?case
  proof (cases i)
    case 0 then show ?thesis by (simp add: str2buffer_Cons)
  next
    case (Suc j)
    with Cons.prems have "j < length cs" by simp
    from Cons.IH [OF this] Suc show ?thesis by (simp add: str2buffer_Cons)
  qed
qed

lemma code_unit_of_bytes:
  "push_bit 8 (ucast (ucast (drop_bit 8 c :: 16 word) :: 8 word)) OR ucast (ucast c :: 8 word) = (c :: 16 word)"
  by (rule bit_word_eqI) (auto simp: bit_simps)

lemma str2buffer_Nil: "str2buffer [] = []"
  by (simp add: str2buffer_def)

lemma buffer2str_str2buffer: "buffer2str (str2buffer s) = s"
  by (induction s) (simp_all add: str2buffer_Cons str2buffer_Nil code_unit_of_bytes)


section \<open>Auxiliary facts about the queries\<close>



lemma findAll_append: "findAll sel (xs @ ys) = findAll sel xs @ findAll sel ys"
  by (induction sel xs rule: findAll.induct) simp_all





lemma no_context_find: "findAll ctx ns = [] \<Longrightarrow> find_within ctx sel ns = []"
  by (induction ctx sel ns rule: find_within.induct) (auto split: if_splits)

lemma no_context_remove: "findAll ctx ns = [] \<Longrightarrow> remove_within ctx sel ns = ns"
  by (induction ctx sel ns rule: remove_within.induct) (auto split: if_splits)

lemma findAll_children_subset:
  "a \<in> set (findAll p ns) \<Longrightarrow> set (findAll q (children a)) \<subseteq> set (findAll q ns)"
  by (induction p ns rule: findAll.induct) (auto split: if_splits)

lemma set_find_within:
  "set (find_within ctx sel ns) = (\<Union>a \<in> set (findAll ctx ns). set (findAll sel (children a)))"
proof (induction ctx sel ns rule: find_within.induct)
  case (4 ctx sel t as cs ns)
  show ?case
  proof (cases "ctx (Element t as cs)")
    case True
    have "(\<Union>a \<in> set (findAll ctx cs). set (findAll sel (children a))) \<subseteq> set (findAll sel cs)"
      using findAll_children_subset by blast
    with True 4 show ?thesis by auto
  next
    case False
    with 4 show ?thesis by auto
  qed
qed simp_all




section \<open>Auxiliary facts about the text steps\<close>














lemma strip_tags_no_lt: "0x3C \<notin> set s \<Longrightarrow> strip_tags s = s"
  by (induction s) auto



section \<open>The assembled index and store\<close>

lemma example_document:
  "extract_document example_caps s example_page =
     \<lparr>doc_text = js ''a b c'', doc_title = js ''Intro'', doc_component = js ''c'',
      doc_version = js ''1'', doc_name = js ''b'', doc_url = s @ js ''/a/b.html'',
      doc_titles = [\<lparr>h_text = js ''One'', h_id = js ''s1''\<rparr>]\<rparr>"
  by (simp add: extract_document_def example_caps_def example_tree_def example_page_def Let_def
      js_def text_sel_def trim_def is_space_def replace_char_def push_title_def)

lemma example_site_base: "site_base example_playbook = js ''https://ex.com''"
  by (simp add: site_base_def example_playbook_def js_def)

lemma generateIndex_nonempty_fields:
  assumes "pages \<noteq> []"
  obtains idx where
    "generateIndex caps pb pages =
       IndexAndStore idx (map_of (rev (map (\<lambda>d. (doc_url d, d)) (map (extract_document caps (site_base pb)) pages))))"
    "b_ref idx = Some ''url''"
    "b_fields idx = [(''title'', Some 10), (''name'', None), (''text'', None), (''component'', None)]"
    "metadataWhitelist idx = [''position'']"
    "b_docs idx = concat (map records_of (map (extract_document caps (site_base pb)) pages))"
proof -
  show thesis
    by (rule that [OF generateIndex_nonempty [OF assms]]) (simp_all only: builder.select_convs)
qed

text \<open>
  Claim C7. Whatever the configuration, an empty page sequence gives the empty object
  \<open>{}\<close>: a value of its own, which is not an \<open>{index, store}\<close> object (so not an
  index over zero documents either), and no error.
\<close>

theorem empty_pages_give_empty_object:
  "generateIndex caps pb [] = EmptyObject \<and>
   (\<forall>idx st. generateIndex caps pb [] \<noteq> IndexAndStore idx st)"
  by (simp add: generateIndex_def Let_def)

text \<open>
  Claim C5. The page records handed to the builder are the extracted documents of the
  pages, in order, and the \<open>url\<close> of each is the site base URL, with one trailing slash
  trimmed, followed by the published path of the page; it is the published path alone
  when no site URL is configured.
\<close>

theorem document_url:
  "pages \<noteq> [] \<Longrightarrow>
   \<exists>idx st. generateIndex caps pb pages = IndexAndStore idx st \<and>
     [d. PageRecord d \<leftarrow> b_docs idx] = map (extract_document caps (site_base pb)) pages \<and>
     map doc_url [d. PageRecord d \<leftarrow> b_docs idx] =
       map (\<lambda>p. case site_url pb of
                   None \<Rightarrow> pub_url p
                 | Some u \<Rightarrow> (if u \<noteq> [] \<and> last u = 0x2F then butlast u else u) @ pub_url p)
         pages"
proof -
  assume ne: "pages \<noteq> []"
  define docs where "docs = map (extract_document caps (site_base pb)) pages"
  from generateIndex_nonempty_fields [OF ne, of caps pb] obtain idx st
    where g: "generateIndex caps pb pages = IndexAndStore idx st"
      and d: "b_docs idx = concat (map records_of docs)"
    unfolding docs_def by blast
  have 1: "[d. PageRecord d \<leftarrow> b_docs idx] = docs"
    unfolding d by (rule page_records_of)
  have "doc_url (extract_document caps (site_base pb) p) =
      (case site_url pb of
         None \<Rightarrow> pub_url p
       | Some u \<Rightarrow> (if u \<noteq> [] \<and> last u = 0x2F then butlast u else u) @ pub_url p)" for p
    by (simp add: doc_url_extract site_base_def split: option.splits)
  then have 2: "map doc_url docs =
       map (\<lambda>p. case site_url pb of
                   None \<Rightarrow> pub_url p
                 | Some u \<Rightarrow> (if u \<noteq> [] \<and> last u = 0x2F then butlast u else u) @ pub_url p)
         pages"
    unfolding docs_def by simp
  from 2 have 3: "map doc_url [d. PageRecord d \<leftarrow> b_docs idx] =
       map (\<lambda>p. case site_url pb of
                   None \<Rightarrow> pub_url p
                 | Some u \<Rightarrow> (if u \<noteq> [] \<and> last u = 0x2F then butlast u else u) @ pub_url p)
         pages"
    by (simp only: 1)
  from g 1 3 show ?thesis
    unfolding docs_def by (intro exI [of _ idx] exI [of _ st] conjI)
qed

theorem document_url_witness:
  "[example_page] \<noteq> [] \<and>
   (\<exists>idx st. generateIndex example_caps example_playbook [example_page] = IndexAndStore idx st \<and>
      map doc_url [d. PageRecord d \<leftarrow> b_docs idx] = [js ''https://ex.com/a/b.html'']) \<and>
   (\<exists>idx st. generateIndex example_caps \<lparr>site_url = None\<rparr> [example_page] = IndexAndStore idx st \<and>
      map doc_url [d. PageRecord d \<leftarrow> b_docs idx] = [js ''/a/b.html''])"
proof -
  have ne: "[example_page] \<noteq> []" by simp
  from document_url [OF ne, of example_caps example_playbook] obtain idx st
    where a: "generateIndex example_caps example_playbook [example_page] = IndexAndStore idx st"
      "map doc_url [d. PageRecord d \<leftarrow> b_docs idx] =
         map (\<lambda>p. case site_url example_playbook of
                   None \<Rightarrow> pub_url p
                 | Some u \<Rightarrow> (if u \<noteq> [] \<and> last u = 0x2F then butlast u else u) @ pub_url p)
           [example_page]"
    by blast
  from document_url [OF ne, of example_caps "\<lparr>site_url = None\<rparr>"] obtain idx' st'
    where b: "generateIndex example_caps \<lparr>site_url = None\<rparr> [example_page] = IndexAndStore idx' st'"
      "map doc_url [d. PageRecord d \<leftarrow> b_docs idx'] =
         map (\<lambda>p. case site_url \<lparr>site_url = None\<rparr> of
                   None \<Rightarrow> pub_url p
                 | Some u \<Rightarrow> (if u \<noteq> [] \<and> last u = 0x2F then butlast u else u) @ pub_url p)
           [example_page]"
    by blast
  have c: "map doc_url [d. PageRecord d \<leftarrow> b_docs idx] = [js ''https://ex.com/a/b.html'']"
    unfolding a(2) by (simp add: example_playbook_def example_page_def js_def)
  have d: "map doc_url [d. PageRecord d \<leftarrow> b_docs idx'] = [js ''/a/b.html'']"
    unfolding b(2) by (simp add: example_page_def)
  show ?thesis
  proof (intro conjI)
    show "[example_page] \<noteq> []" by (rule ne)
    show "\<exists>idx st. generateIndex example_caps example_playbook [example_page] = IndexAndStore idx st \<and>
      map doc_url [d. PageRecord d \<leftarrow> b_docs idx] = [js ''https://ex.com/a/b.html'']"
      using a(1) c by (intro exI [of _ idx] exI [of _ st] conjI)
    show "\<exists>idx st. generateIndex example_caps \<lparr>site_url = None\<rparr> [example_page] = IndexAndStore idx st \<and>
      map doc_url [d. PageRecord d \<leftarrow> b_docs idx] = [js ''/a/b.html'']"
      using b(1) d by (intro exI [of _ idx'] exI [of _ st'] conjI)
  qed
qed

text \<open>
  Claim C2. For a non-empty page sequence the builder has the reference field \<open>url\<close>,
  the fields \<open>title\<close> with boost 10 and \<open>name\<close>, \<open>text\<close>, \<open>component\<close> with
  boost 1, and the metadata whitelist \<open>position\<close>. It receives, for each extracted
  document in input order, the full page record and then, for each heading reference of
  the document in order, a sparse record with the heading text as \<open>title\<close> and the page
  url, \<open>#\<close> and the heading id as \<open>url\<close>.
\<close>

theorem builder_configuration_and_records:
  "pages \<noteq> [] \<Longrightarrow>
   \<exists>idx st. generateIndex caps pb pages = IndexAndStore idx st \<and>
     b_ref idx = Some ''url'' \<and>
     map fst (b_fields idx) = [''title'', ''name'', ''text'', ''component''] \<and>
     map (\<lambda>f. boost_of (snd f)) (b_fields idx) = [10, 1, 1, 1] \<and>
     metadataWhitelist idx = [''position''] \<and>
     b_docs idx =
       concat (map (\<lambda>d. PageRecord d #
                     map (\<lambda>t. HeadingRecord (h_text t) (doc_url d @ js ''#'' @ h_id t)) (doc_titles d))
                 (map (extract_document caps (site_base pb)) pages))"
proof -
  assume ne: "pages \<noteq> []"
  from generateIndex_nonempty_fields [OF ne, of caps pb] obtain idx st
    where g: "generateIndex caps pb pages = IndexAndStore idx st"
      and r: "b_ref idx = Some ''url''"
      and f: "b_fields idx = [(''title'', Some 10), (''name'', None), (''text'', None), (''component'', None)]"
      and m: "metadataWhitelist idx = [''position'']"
      and d: "b_docs idx = concat (map records_of (map (extract_document caps (site_base pb)) pages))"
    by blast
  have f1: "map fst (b_fields idx) = [''title'', ''name'', ''text'', ''component'']"
    unfolding f by simp
  have f2: "map (\<lambda>f. boost_of (snd f)) (b_fields idx) = [10, 1, 1, 1]"
    unfolding f by (simp add: boost_of_def)
  have d': "b_docs idx =
       concat (map (\<lambda>d. PageRecord d #
                     map (\<lambda>t. HeadingRecord (h_text t) (doc_url d @ js ''#'' @ h_id t)) (doc_titles d))
                 (map (extract_document caps (site_base pb)) pages))"
    unfolding d records_of_def [abs_def] by (rule refl)
  from g r f1 f2 m d' show ?thesis
    by (intro exI [of _ idx] exI [of _ st] conjI)
qed

theorem builder_configuration_and_records_witness:
  "[example_page] \<noteq> [] \<and>
   (\<exists>idx st. generateIndex example_caps example_playbook [example_page] = IndexAndStore idx st \<and>
      b_ref idx = Some ''url'' \<and>
      map fst (b_fields idx) = [''title'', ''name'', ''text'', ''component''] \<and>
      map (\<lambda>f. boost_of (snd f)) (b_fields idx) = [10, 1, 1, 1] \<and>
      metadataWhitelist idx = [''position''] \<and>
      b_docs idx =
        [PageRecord (extract_document example_caps (js ''https://ex.com'') example_page),
         HeadingRecord (js ''One'') (js ''https://ex.com/a/b.html#s1'')])"
proof -
  have ne: "[example_page] \<noteq> []" by simp
  from builder_configuration_and_records [OF ne, of example_caps example_playbook] obtain idx st
    where g: "generateIndex example_caps example_playbook [example_page] = IndexAndStore idx st"
      and r: "b_ref idx = Some ''url''"
      and f1: "map fst (b_fields idx) = [''title'', ''name'', ''text'', ''component'']"
      and f2: "map (\<lambda>f. boost_of (snd f)) (b_fields idx) = [10, 1, 1, 1]"
      and m: "metadataWhitelist idx = [''position'']"
      and d: "b_docs idx =
       concat (map (\<lambda>d. PageRecord d #
                     map (\<lambda>t. HeadingRecord (h_text t) (doc_url d @ js ''#'' @ h_id t)) (doc_titles d))
                 (map (extract_document example_caps (site_base example_playbook)) [example_page]))"
    by (elim exE conjE) (rule that; assumption)
  have d': "b_docs idx =
        [PageRecord (extract_document example_caps (js ''https://ex.com'') example_page),
         HeadingRecord (js ''One'') (js ''https://ex.com/a/b.html#s1'')]"
    unfolding d example_site_base by (simp add: example_document) (simp add: js_def)
  from ne g r f1 f2 m d' show ?thesis
    by (intro conjI exI [of _ idx] exI [of _ st])
qed



section \<open>The text field\<close>

lemma text_field_steps_aux:
  "doc_text (extract_document caps s p) =
     trim (collapse_spaces (replace_char 0x0D 0x20 (replace_char 0x0A 0x20
       (strip_tags (decode caps (remaining_article_text (load caps (contents p))))))))"
  by (simp add: extract_document_def Let_def remaining_article_text_def)



text \<open>
  Claim C10. There is a page whose article mentions markup in escaped form,
  \<open>&lt;b&gt;\<close>: the decoder turns it into \<open><b>\<close>, which the tag pattern, applied
  afterwards, deletes; the mention is absent from the \<open>text\<close> field. This holds for the
  page of the witness, and with any parser and decoder that give the tree and the decoded
  text below (the text node may hold the escaped form, or already \<open><b>\<close> where the
  parser has resolved the entities and the decoder leaves the text as it is).
\<close>

theorem escaped_markup_is_deleted:
  assumes "load caps (contents p) =
             [Element ''article'' [(''class'', js ''doc'')] [Element ''p'' [] [Text t]]]"
    and "decode caps t = js ''use <b> now''"
  shows "doc_text (extract_document caps s p) = js ''use now''"
proof -
  have r: "remaining_article_text (load caps (contents p)) = t"
    unfolding assms(1) by (simp add: remaining_article_text_def text_sel_def js_def is_space_def)
  have "trim (collapse_spaces (replace_char 0x0D 0x20 (replace_char 0x0A 0x20
       (strip_tags (js ''use <b> now''))))) = js ''use now''"
    by (simp add: js_def replace_char_def trim_def is_space_def)
  with text_field_steps_aux [of caps s p] show ?thesis by (simp add: r assms(2))
qed

theorem escaped_markup_is_deleted_witness:
  "load \<lparr>load = (\<lambda>html. [Element ''article'' [(''class'', js ''doc'')]
                              [Element ''p'' [] [Text (js ''use &lt;b&gt; now'')]]]),
         decode = (\<lambda>x. if x = js ''use &lt;b&gt; now'' then js ''use <b> now'' else x)\<rparr>
     (contents example_page) =
     [Element ''article'' [(''class'', js ''doc'')] [Element ''p'' [] [Text (js ''use &lt;b&gt; now'')]]] \<and>
   decode \<lparr>load = (\<lambda>html. [Element ''article'' [(''class'', js ''doc'')]
                              [Element ''p'' [] [Text (js ''use &lt;b&gt; now'')]]]),
         decode = (\<lambda>x. if x = js ''use &lt;b&gt; now'' then js ''use <b> now'' else x)\<rparr>
     (js ''use &lt;b&gt; now'') = js ''use <b> now'' \<and>
   doc_text (extract_document
      \<lparr>load = (\<lambda>html. [Element ''article'' [(''class'', js ''doc'')]
                              [Element ''p'' [] [Text (js ''use &lt;b&gt; now'')]]]),
         decode = (\<lambda>x. if x = js ''use &lt;b&gt; now'' then js ''use <b> now'' else x)\<rparr>
      [] example_page) = js ''use now''"
  using escaped_markup_is_deleted [of
      "\<lparr>load = (\<lambda>html. [Element ''article'' [(''class'', js ''doc'')]
                              [Element ''p'' [] [Text (js ''use &lt;b&gt; now'')]]]),
         decode = (\<lambda>x. if x = js ''use &lt;b&gt; now'' then js ''use <b> now'' else x)\<rparr>"
      example_page "js ''use &lt;b&gt; now''" "[]"]
  by simp

section \<open>Title, headings and malformed pages\<close>

lemma doc_title_extract:
  "doc_title (extract_document caps s p) =
     text_sel (find_within is_article_doc is_h1 (load caps (contents p)))"
  by (simp add: extract_document_def Let_def)

lemma doc_titles_extract:
  "doc_titles (extract_document caps s p) =
     foldl push_title []
       (find_within is_article_doc is_subheading
          (remove_within is_article_doc is_h1 (load caps (contents p))))"
  by (simp add: extract_document_def Let_def)






text \<open>
  Claim C8. Extraction is a total function, so no page makes it fail. A page without an
  element matching the article selector gives an empty title, an empty \<open>text\<close> (for a
  decoder that maps the empty string to itself) and no titles; a page whose article
  elements contain no top-level heading gives an empty title.
\<close>

theorem malformed_pages_give_empty_fields:
  "(findAll is_article_doc (load caps (contents p)) = [] \<and> decode caps [] = [] \<longrightarrow>
      doc_title (extract_document caps s p) = [] \<and>
      doc_text (extract_document caps s p) = [] \<and>
      doc_titles (extract_document caps s p) = []) \<and>
   ((\<forall>a \<in> set (findAll is_article_doc (load caps (contents p))). findAll is_h1 (children a) = []) \<longrightarrow>
      doc_title (extract_document caps s p) = [])"
proof (intro conjI impI)
  assume a: "findAll is_article_doc (load caps (contents p)) = [] \<and> decode caps [] = []"
  let ?T = "load caps (contents p)"
  from a have n: "findAll is_article_doc ?T = []" and d: "decode caps [] = []" by blast+
  have r1: "remove_within is_article_doc is_h1 ?T = ?T" by (rule no_context_remove [OF n])
  have r2: "remove_within is_article_doc is_subheading ?T = ?T" by (rule no_context_remove [OF n])
  have f1: "find_within is_article_doc is_h1 ?T = []" by (rule no_context_find [OF n])
  have f2: "find_within is_article_doc is_subheading ?T = []" by (rule no_context_find [OF n])
  show "doc_title (extract_document caps s p) = []"
    by (simp add: doc_title_extract f1 text_sel_def)
  show "doc_titles (extract_document caps s p) = []"
    by (simp add: doc_titles_extract r1 f2)
  show "doc_text (extract_document caps s p) = []"
    by (simp add: text_field_steps_aux remaining_article_text_def r1 r2 n text_sel_def d trim_def
        replace_char_def)
next
  assume "\<forall>a \<in> set (findAll is_article_doc (load caps (contents p))). findAll is_h1 (children a) = []"
  then have "set (find_within is_article_doc is_h1 (load caps (contents p))) = {}"
    unfolding set_find_within by simp
  then show "doc_title (extract_document caps s p) = []"
    by (simp add: doc_title_extract text_sel_def)
qed

theorem malformed_pages_give_empty_fields_witness:
  "findAll is_article_doc (load no_article_caps (contents example_page)) = [] \<and>
   decode no_article_caps [] = [] \<and>
   doc_title (extract_document no_article_caps [] example_page) = [] \<and>
   doc_text (extract_document no_article_caps [] example_page) = [] \<and>
   doc_titles (extract_document no_article_caps [] example_page) = [] \<and>
   findAll is_article_doc (load no_h1_caps (contents example_page)) =
     [Element ''article'' [(''class'', js ''doc'')] [Element ''p'' [] [Text (js ''x'')]]] \<and>
   findAll is_h1 (children (Element ''article'' [(''class'', js ''doc'')] [Element ''p'' [] [Text (js ''x'')]])) = [] \<and>
   doc_title (extract_document no_h1_caps [] example_page) = [] \<and>
   doc_text (extract_document no_h1_caps [] example_page) = js ''x''"
proof -
  have a: "findAll is_article_doc (load no_article_caps (contents example_page)) = [] \<and>
     decode no_article_caps [] = []"
    by (simp add: no_article_caps_def js_def)
  have b: "findAll is_article_doc (load no_h1_caps (contents example_page)) =
     [Element ''article'' [(''class'', js ''doc'')] [Element ''p'' [] [Text (js ''x'')]]]"
    "findAll is_h1 (children (Element ''article'' [(''class'', js ''doc'')] [Element ''p'' [] [Text (js ''x'')]])) = []"
    by (simp_all add: no_h1_caps_def js_def is_space_def)
  have b': "\<forall>a \<in> set (findAll is_article_doc (load no_h1_caps (contents example_page))).
      findAll is_h1 (children a) = []"
    unfolding b(1) using b(2) by simp
  have c: "doc_text (extract_document no_h1_caps [] example_page) = js ''x''"
    by (simp add: text_field_steps_aux remaining_article_text_def no_h1_caps_def text_sel_def
        js_def is_space_def trim_def replace_char_def)
  from malformed_pages_give_empty_fields [of no_article_caps example_page "[]"] a
  have 1: "doc_title (extract_document no_article_caps [] example_page) = [] \<and>
      doc_text (extract_document no_article_caps [] example_page) = [] \<and>
      doc_titles (extract_document no_article_caps [] example_page) = []"
    by blast
  from malformed_pages_give_empty_fields [of no_h1_caps example_page "[]"] b'
  have 2: "doc_title (extract_document no_h1_caps [] example_page) = []"
    by blast
  from a b c 1 2 show ?thesis by (intro conjI) simp_all
qed

section \<open>The byte buffer handed to the compressor\<close>

text \<open>
  Claim C9. The buffer built from a string has two bytes per character, the pair at
  position \<open>i\<close> holding the whole 16-bit code unit of the character (low byte, high
  byte; not a UTF-8 encoding). So reading the buffer back as 16-bit code units gives the
  string, and with a decompressor that inverts the compressor and a parser that inverts
  the serialisation, the packaged bytes give back the serialised text and the structure.
\<close>

theorem buffer_holds_code_units:
  assumes "\<forall>b. inflate (deflate b) = b" and "parse (stringify x) = x"
  shows "length (str2buffer s) = 2 * length s \<and>
    (\<forall>i < length s.
       str2buffer s ! (2 * i) = (ucast (s ! i) :: 8 word) \<and>
       str2buffer s ! (2 * i + 1) = (ucast (drop_bit 8 (s ! i)) :: 8 word) \<and>
       push_bit 8 (ucast (str2buffer s ! (2 * i + 1)) :: 16 word) OR ucast (str2buffer s ! (2 * i)) = s ! i) \<and>
    buffer2str (str2buffer s) = s \<and>
    buffer2str (inflate (compress stringify deflate x)) = stringify x \<and>
    parse (buffer2str (inflate (compress stringify deflate x))) = x"
proof -
  have "str2buffer s ! (2 * i) = (ucast (s ! i) :: 8 word) \<and>
       str2buffer s ! (2 * i + 1) = (ucast (drop_bit 8 (s ! i)) :: 8 word) \<and>
       push_bit 8 (ucast (str2buffer s ! (2 * i + 1)) :: 16 word) OR ucast (str2buffer s ! (2 * i)) = s ! i"
    if "i < length s" for i
    using str2buffer_nth [OF that] by (simp only: code_unit_of_bytes simp_thms)
  moreover have "buffer2str (inflate (compress stringify deflate x)) = stringify x"
    using assms(1) by (simp add: compress_def buffer2str_str2buffer)
  ultimately show ?thesis
    using assms(2) by (simp add: str2buffer_length buffer2str_str2buffer code_unit_of_bytes)
qed

theorem buffer_holds_code_units_witness:
  "(\<forall>b :: 8 word list. id (id b) = b) \<and> (\<lambda>t. if t = js ''{}'' then () else ()) ((\<lambda>u. js ''{}'') ()) = () \<and>
   str2buffer [0x20AC, 0x41] = [0xAC, 0x20, 0x41, 0x00] \<and>
   length (str2buffer [0x20AC, 0x41]) = 4 \<and>
   buffer2str (str2buffer [0x20AC, 0x41]) = [0x20AC, 0x41] \<and>
   buffer2str (id (compress (\<lambda>u. js ''{}'') id ())) = js ''{}''"
  using buffer_holds_code_units [of id id "\<lambda>t. if t = js ''{}'' then () else ()" "\<lambda>u. js ''{}''" "()" "[0x20AC, 0x41]"]
  by (simp add: str2buffer_def)

end
